theory Spec2Isabelle
  imports Main "HOL-Library.Char_ord" "HOL-Library.List_Lexorder" "HOL-Library.Product_Lexorder"
begin

section \<open>Time, constants and errors\<close>

text \<open>
  A Python \<^verbatim>\<open>datetime\<close> is modelled as the integer count of its microseconds and a
  \<^verbatim>\<open>timedelta\<close> as an integer number of microseconds, so that \<^verbatim>\<open>datetime + timedelta\<close>
  is integer addition and the comparisons are those of the integers. The bounds of
  the representable range of \<^verbatim>\<open>datetime\<close> (years 1 to 9999) are not modelled.
\<close>

type_synonym datetime = int
type_synonym timedelta = int

text \<open>
  The module \<^verbatim>\<open>_runtime/_constants.py\<close> is not among the sources. The values it
  exports are taken as a parameter of every function that reads one of them.
\<close>

record constants =
  MIN_DT :: datetime
  MAX_DT :: datetime
  MIN_TD :: timedelta
  MIN_ST :: datetime

text \<open>
  The exceptions the modelled code raises. Those raised by a \<^verbatim>\<open>raise\<close> statement of the
  source carry its message; the others are raised by the interpreter or by
  \<^verbatim>\<open>SortedList.remove\<close>.
\<close>

datatype error =
    ValueError string
  | RuntimeError string
  | NotImplementedError string
  | AttributeError
  | TypeError
  | IndexError
  | KeyError

section \<open>The execution contexts (\<^verbatim>\<open>hg/_impl/_runtime/_graph_engine.py\<close>)\<close>

text \<open>
  \<^verbatim>\<open>datetime.utcnow()\<close> is an input of the program. A clock gives the value of the
  \<open>n\<close>-th call; every function that reads the clock takes the number of calls made so
  far and returns the number of calls made after it.
\<close>

type_synonym clock = "nat \<Rightarrow> datetime"

text \<open>The attributes of \<^verbatim>\<open>BaseExecutionContext\<close>.\<close>

record base_execution_context =
  current_time :: datetime
  proposed_next_engine_time :: datetime
  stop_requested :: bool

text \<open>
  The two concrete classes: each holds the attributes of the base class and one
  attribute of its own. The condition variable of the real-time context has no state
  of its own in the model.
\<close>

datatype execution_context =
    BackTestExecutionContext (base: base_execution_context) (wall_clock_time_at_current_time: datetime)
  | RealtimeExecutionContext (base: base_execution_context) (push_pending: bool)

definition current_engine_time :: "execution_context \<Rightarrow> datetime" where
  "current_engine_time ctx = current_time (base ctx)"

text \<open>
  The setter of \<^verbatim>\<open>current_engine_time\<close>. The back-test class overrides it and reads
  the clock once.
\<close>

fun set_current_engine_time ::
  "constants \<Rightarrow> clock \<Rightarrow> nat \<Rightarrow> datetime \<Rightarrow> execution_context \<Rightarrow> execution_context \<times> nat" where
  "set_current_engine_time K clk n v (BackTestExecutionContext b w) =
     (BackTestExecutionContext
        (b\<lparr>current_time := v, proposed_next_engine_time := MAX_DT K\<rparr>) (clk n), Suc n)"
| "set_current_engine_time K clk n v (RealtimeExecutionContext b p) =
     (RealtimeExecutionContext
        (b\<lparr>current_time := v, proposed_next_engine_time := MAX_DT K\<rparr>) p, n)"

text \<open>
  The constructors. \<^verbatim>\<open>BaseExecutionContext.__init__\<close> assigns \<^verbatim>\<open>current_engine_time\<close>
  through the setter of the object's class, then the proposal and the stop flag; the
  back-test constructor reads the clock a second time afterwards.
\<close>

definition new_BackTestExecutionContext ::
  "constants \<Rightarrow> clock \<Rightarrow> nat \<Rightarrow> datetime \<Rightarrow> execution_context \<times> nat" where
  "new_BackTestExecutionContext K clk n t =
     (BackTestExecutionContext
        \<lparr>current_time = t, proposed_next_engine_time = MAX_DT K, stop_requested = False\<rparr>
        (clk (Suc n)), Suc (Suc n))"

definition new_RealtimeExecutionContext ::
  "constants \<Rightarrow> clock \<Rightarrow> nat \<Rightarrow> datetime \<Rightarrow> execution_context \<times> nat" where
  "new_RealtimeExecutionContext K clk n t =
     (RealtimeExecutionContext
        \<lparr>current_time = t, proposed_next_engine_time = MAX_DT K, stop_requested = False\<rparr>
        False, n)"

definition map_base ::
  "(base_execution_context \<Rightarrow> base_execution_context) \<Rightarrow> execution_context \<Rightarrow> execution_context" where
  "map_base f ctx =
     (case ctx of
        BackTestExecutionContext b w \<Rightarrow> BackTestExecutionContext (f b) w
      | RealtimeExecutionContext b p \<Rightarrow> RealtimeExecutionContext (f b) p)"

definition next_cycle_engine_time :: "constants \<Rightarrow> execution_context \<Rightarrow> datetime" where
  "next_cycle_engine_time K ctx = current_time (base ctx) + MIN_TD K"

definition update_next_proposed_time ::
  "constants \<Rightarrow> datetime \<Rightarrow> execution_context \<Rightarrow> execution_context" where
  "update_next_proposed_time K next_time ctx =
     (if next_time = current_time (base ctx) then ctx
      else map_base (\<lambda>b. b\<lparr>proposed_next_engine_time :=
              max (next_cycle_engine_time K ctx) (min (proposed_next_engine_time b) next_time)\<rparr>) ctx)"

definition request_engine_stop :: "execution_context \<Rightarrow> execution_context" where
  "request_engine_stop ctx = map_base (\<lambda>b. b\<lparr>stop_requested := True\<rparr>) ctx"

definition is_stop_requested :: "execution_context \<Rightarrow> bool" where
  "is_stop_requested ctx = stop_requested (base ctx)"

text \<open>
  \<^verbatim>\<open>wall_clock_time\<close>: the back-test context adds its engine lag, the difference of
  the clock and the clock as it was when the engine time was set, to the engine time;
  the real-time context returns the clock.
\<close>

fun wall_clock_time :: "clock \<Rightarrow> nat \<Rightarrow> execution_context \<Rightarrow> datetime \<times> nat" where
  "wall_clock_time clk n (BackTestExecutionContext b w) = (current_time b + (clk n - w), Suc n)"
| "wall_clock_time clk n (RealtimeExecutionContext b p) = (clk n, Suc n)"

fun mark_push_has_pending_values :: "execution_context \<Rightarrow> error + execution_context" where
  "mark_push_has_pending_values (BackTestExecutionContext b w) =
     Inl (NotImplementedError ''Back test engines should not contain push source nodes'')"
| "mark_push_has_pending_values (RealtimeExecutionContext b p) =
     Inr (RealtimeExecutionContext b True)"

fun push_has_pending_values :: "execution_context \<Rightarrow> bool" where
  "push_has_pending_values (BackTestExecutionContext b w) = False"
| "push_has_pending_values (RealtimeExecutionContext b p) = p"

fun reset_push_has_pending_values :: "execution_context \<Rightarrow> execution_context" where
  "reset_push_has_pending_values (BackTestExecutionContext b w) = BackTestExecutionContext b w"
| "reset_push_has_pending_values (RealtimeExecutionContext b p) = RealtimeExecutionContext b False"

text \<open>
  The wait loop of the real-time context. Each round reads the clock for the loop
  test and, when the loop goes on, once more for the sleep time; it then waits on the
  condition, during which a producer thread may set the pending flag: \<open>producer m\<close>
  says whether one did during the wait that ends before the \<open>m\<close>-th clock read. The
  loop may run forever (a clock that never reaches the proposed time and no producer):
  not returning is the value \<open>None\<close>. The result is the flag and the number of clock
  reads when the loop is left.
\<close>

partial_function (option) realtime_wait ::
  "clock \<Rightarrow> (nat \<Rightarrow> bool) \<Rightarrow> datetime \<Rightarrow> bool \<Rightarrow> nat \<Rightarrow> (bool \<times> nat) option" where
  "realtime_wait clk producer proposed_engine_time p n =
     (if clk n < proposed_engine_time \<and> \<not> p
      then realtime_wait clk producer proposed_engine_time (p \<or> producer (n + 2)) (n + 2)
      else Some (p, Suc n))"

declare realtime_wait.simps [code]

fun wait_until_proposed_engine_time ::
  "constants \<Rightarrow> clock \<Rightarrow> (nat \<Rightarrow> bool) \<Rightarrow> nat \<Rightarrow> datetime \<Rightarrow> execution_context
     \<Rightarrow> (execution_context \<times> nat) option" where
  "wait_until_proposed_engine_time K clk producer n proposed_engine_time (BackTestExecutionContext b w) =
     Some (set_current_engine_time K clk n proposed_engine_time (BackTestExecutionContext b w))"
| "wait_until_proposed_engine_time K clk producer n proposed_engine_time (RealtimeExecutionContext b p) =
     (case realtime_wait clk producer proposed_engine_time p n of
        None \<Rightarrow> None
      | Some (p', n') \<Rightarrow>
          Some (set_current_engine_time K clk (Suc n') (min proposed_engine_time (clk n'))
                  (RealtimeExecutionContext b p')))"

section \<open>The graph engine (\<^verbatim>\<open>hg/_impl/_runtime/_graph_engine.py\<close>)\<close>

datatype run_mode = REAL_TIME | BACK_TEST

text \<open>The callbacks of a \<^verbatim>\<open>GraphExecutorLifeCycleObserver\<close> and what they are called on.\<close>

datatype callback =
    on_before_start | on_after_start | on_before_stop | on_after_stop
  | on_before_evaluation | on_after_evaluation
  | on_before_node_evaluation | on_after_node_evaluation
  | on_before_start_node | on_after_start_node
  | on_before_stop_node | on_after_stop_node

datatype target = TheGraph | TheNode nat

text \<open>
  The calls the engine makes into code that is not its own: a callback of a life-cycle
  observer, a one-shot notification callable, and the \<^verbatim>\<open>start\<close>, \<^verbatim>\<open>eval\<close> and
  \<^verbatim>\<open>stop\<close> of a node. Observers, callables and nodes are named by numbers.
\<close>

datatype event =
    Observer nat callback target
  | Notification nat
  | NodeStart nat
  | NodeEval nat
  | NodeStop nat

text \<open>
  The state of a \<^verbatim>\<open>PythonGraphEngine\<close> together with the parts of its graph that the
  engine reads (\<^verbatim>\<open>graph.nodes\<close>, \<^verbatim>\<open>graph.schedule\<close>,
  \<^verbatim>\<open>graph.push_source_nodes_end\<close>; \<^verbatim>\<open>graph.context\<close> is the same object as the
  engine's execution context), the number of clock reads made so far, and the trace
  of the calls made into foreign code.
\<close>

record engine =
  graph_nodes :: "nat list"
  graph_schedule :: "datetime list"
  push_source_nodes_end :: nat
  run_mode :: run_mode
  is_started :: bool
  start_time :: "datetime option"
  end_time :: "datetime option"
  execution_context :: "execution_context option"
  life_cycle_observers :: "nat list"
  before_evaluation_notification :: "nat list"
  after_evaluation_notification :: "nat list"
  clock_reads :: nat
  trace :: "event list"

text \<open>
  What surrounds the engine: the constants, the clock, the producer threads, and the
  effect on the engine's state of each call into foreign code (a node's \<^verbatim>\<open>eval\<close> may
  request a stop or write the schedule, for instance). Foreign code is taken not to
  raise, and not to change a list while the engine iterates over it.
\<close>

record world =
  constants_of :: constants
  utcnow :: clock
  producer :: "nat \<Rightarrow> bool"
  foreign :: "event \<Rightarrow> engine \<Rightarrow> engine"

definition call_out :: "world \<Rightarrow> event \<Rightarrow> engine \<Rightarrow> engine" where
  "call_out W ev eng = foreign W ev (eng\<lparr>trace := trace eng @ [ev]\<rparr>)"

text \<open>The loop \<^verbatim>\<open>for life_cycle_observer in self._life_cycle_observers\<close> of every notifier.\<close>

definition notify_observers :: "world \<Rightarrow> callback \<Rightarrow> target \<Rightarrow> engine \<Rightarrow> engine" where
  "notify_observers W cb tgt eng =
     fold (\<lambda>ob. call_out W (Observer ob cb tgt)) (life_cycle_observers eng) eng"

definition notify_before_evaluation :: "world \<Rightarrow> engine \<Rightarrow> engine" where
  "notify_before_evaluation W eng =
     (let e1 = fold (\<lambda>r. call_out W (Notification r)) (before_evaluation_notification eng) eng;
          e2 = e1\<lparr>before_evaluation_notification := []\<rparr>
      in notify_observers W on_before_evaluation TheGraph e2)"

definition notify_after_evaluation :: "world \<Rightarrow> engine \<Rightarrow> engine" where
  "notify_after_evaluation W eng =
     (let e1 = fold (\<lambda>r. call_out W (Notification r)) (rev (after_evaluation_notification eng)) eng;
          e2 = e1\<lparr>after_evaluation_notification := []\<rparr>
      in notify_observers W on_after_evaluation TheGraph e2)"

definition notify_before_node_evaluation :: "world \<Rightarrow> nat \<Rightarrow> engine \<Rightarrow> engine" where
  "notify_before_node_evaluation W node = notify_observers W on_before_node_evaluation (TheNode node)"

definition notify_after_node_evaluation :: "world \<Rightarrow> nat \<Rightarrow> engine \<Rightarrow> engine" where
  "notify_after_node_evaluation W node = notify_observers W on_after_node_evaluation (TheNode node)"

definition notify_before_start :: "world \<Rightarrow> engine \<Rightarrow> engine" where
  "notify_before_start W = notify_observers W on_before_start TheGraph"

definition notify_after_start :: "world \<Rightarrow> engine \<Rightarrow> engine" where
  "notify_after_start W = notify_observers W on_after_start TheGraph"

definition notify_before_stop :: "world \<Rightarrow> engine \<Rightarrow> engine" where
  "notify_before_stop W = notify_observers W on_before_stop TheGraph"

definition notify_after_stop :: "world \<Rightarrow> engine \<Rightarrow> engine" where
  "notify_after_stop W = notify_observers W on_after_stop TheGraph"

definition notify_before_start_node :: "world \<Rightarrow> nat \<Rightarrow> engine \<Rightarrow> engine" where
  "notify_before_start_node W node = notify_observers W on_before_start_node (TheNode node)"

definition notify_after_start_node :: "world \<Rightarrow> nat \<Rightarrow> engine \<Rightarrow> engine" where
  "notify_after_start_node W node = notify_observers W on_after_start_node (TheNode node)"

definition notify_before_stop_node :: "world \<Rightarrow> nat \<Rightarrow> engine \<Rightarrow> engine" where
  "notify_before_stop_node W node = notify_observers W on_before_stop_node (TheNode node)"

definition notify_after_stop_node :: "world \<Rightarrow> nat \<Rightarrow> engine \<Rightarrow> engine" where
  "notify_after_stop_node W node = notify_observers W on_after_stop_node (TheNode node)"

text \<open>
  The body of \<^verbatim>\<open>start\<close>. A context whose engine time is \<^verbatim>\<open>None\<close> has no counterpart
  in the model: starting an engine that has no start time is modelled as the
  \<^verbatim>\<open>TypeError\<close> that the first use of that time raises.
\<close>

definition start_body :: "world \<Rightarrow> engine \<Rightarrow> error option \<times> engine" where
  "start_body W eng =
     (case start_time eng of
        None \<Rightarrow> (Some TypeError, eng)
      | Some st \<Rightarrow>
          (let made = (case run_mode eng of
                         REAL_TIME \<Rightarrow> new_RealtimeExecutionContext (constants_of W) (utcnow W) (clock_reads eng) st
                       | BACK_TEST \<Rightarrow> new_BackTestExecutionContext (constants_of W) (utcnow W) (clock_reads eng) st);
               e1 = eng\<lparr>execution_context := Some (fst made), clock_reads := snd made\<rparr>;
               e2 = notify_before_start W e1;
               e3 = fold (\<lambda>node e. notify_after_start_node W node
                                     (call_out W (NodeStart node)
                                        (notify_before_start_node W node e)))
                      (graph_nodes e2) e2
           in (None, notify_after_start W e3)))"

text \<open>The body of \<^verbatim>\<open>stop\<close>, with the observer calls as the source makes them.\<close>

definition stop_body :: "world \<Rightarrow> engine \<Rightarrow> error option \<times> engine" where
  "stop_body W eng =
     (let e1 = notify_before_stop W eng;
          e2 = fold (\<lambda>node e. notify_before_start_node W node
                                (call_out W (NodeStop node)
                                   (notify_before_stop_node W node e)))
                 (graph_nodes e1) e1;
          e3 = notify_after_stop W e2
      in (None, e3\<lparr>execution_context := None\<rparr>))"

text \<open>
  Modelled from the spec: the decorators \<^verbatim>\<open>start_guard\<close> and \<^verbatim>\<open>stop_guard\<close> and the
  context manager \<^verbatim>\<open>start_stop_context\<close> of \<^verbatim>\<open>_runtime/_lifecycle.py\<close>, which is
  not among the sources. The spec: a second start and a second stop are suppressed
  and do not fail; the scoped guard starts on entry and stops on every exit, a
  failure included.
\<close>

definition start_guard ::
  "(engine \<Rightarrow> error option \<times> engine) \<Rightarrow> engine \<Rightarrow> error option \<times> engine" where
  "start_guard body eng =
     (if is_started eng then (None, eng)
      else (case body eng of
              (None, e) \<Rightarrow> (None, e\<lparr>is_started := True\<rparr>)
            | (Some err, e) \<Rightarrow> (Some err, e)))"

definition stop_guard ::
  "(engine \<Rightarrow> error option \<times> engine) \<Rightarrow> engine \<Rightarrow> error option \<times> engine" where
  "stop_guard body eng =
     (if \<not> is_started eng then (None, eng)
      else (case body eng of
              (None, e) \<Rightarrow> (None, e\<lparr>is_started := False\<rparr>)
            | (Some err, e) \<Rightarrow> (Some err, e)))"

definition start :: "world \<Rightarrow> engine \<Rightarrow> error option \<times> engine" where
  "start W = start_guard (start_body W)"

definition stop :: "world \<Rightarrow> engine \<Rightarrow> error option \<times> engine" where
  "stop W = stop_guard (stop_body W)"

definition start_stop_context ::
  "world \<Rightarrow> (engine \<Rightarrow> (error option \<times> engine) option) \<Rightarrow> engine
     \<Rightarrow> (error option \<times> engine) option" where
  "start_stop_context W body eng =
     (case start W eng of
        (Some err, e1) \<Rightarrow>
          (case stop W e1 of
             (None, e2) \<Rightarrow> Some (Some err, e2)
           | (Some err2, e2) \<Rightarrow> Some (Some err2, e2))
      | (None, e1) \<Rightarrow>
          (case body e1 of
             None \<Rightarrow> None
           | Some (res, e2) \<Rightarrow>
               (case stop W e2 of
                  (None, e3) \<Rightarrow> Some (res, e3)
                | (Some err2, e3) \<Rightarrow> Some (Some err2, e3))))"

text \<open>An assignment to \<^verbatim>\<open>self._execution_context.current_engine_time\<close>.\<close>

definition assign_current_engine_time :: "world \<Rightarrow> datetime \<Rightarrow> engine \<Rightarrow> error option \<times> engine" where
  "assign_current_engine_time W v eng =
     (case execution_context eng of
        None \<Rightarrow> (Some AttributeError, eng)
      | Some ctx \<Rightarrow>
          (let r = set_current_engine_time (constants_of W) (utcnow W) (clock_reads eng) v ctx
           in (None, eng\<lparr>execution_context := Some (fst r), clock_reads := snd r\<rparr>)))"

text \<open>
  \<^verbatim>\<open>advance_engine_time\<close>. The result is \<open>None\<close> when the wait of the real-time
  context never returns.
\<close>

definition advance_engine_time :: "world \<Rightarrow> engine \<Rightarrow> (error option \<times> engine) option" where
  "advance_engine_time W eng =
     (case execution_context eng of
        None \<Rightarrow> Some (Some AttributeError, eng)
      | Some ctx \<Rightarrow>
          (case end_time eng of
             None \<Rightarrow> Some (Some TypeError, eng)
           | Some et \<Rightarrow>
               if is_stop_requested ctx
               then Some (assign_current_engine_time W (et + MIN_TD (constants_of W)) eng)
               else
                 (let proposed = min (proposed_next_engine_time (base ctx)) (et + MIN_TD (constants_of W));
                      wall = wall_clock_time (utcnow W) (clock_reads eng) ctx;
                      e1 = eng\<lparr>clock_reads := snd wall\<rparr>
                  in if fst wall \<ge> proposed then Some (assign_current_engine_time W proposed e1)
                     else if push_has_pending_values ctx
                     then Some (assign_current_engine_time W (fst wall) e1)
                     else (case wait_until_proposed_engine_time (constants_of W) (utcnow W) (producer W)
                                  (clock_reads e1) proposed ctx of
                             None \<Rightarrow> None
                           | Some r \<Rightarrow>
                               Some (None, e1\<lparr>execution_context := Some (fst r),
                                              clock_reads := snd r\<rparr>)))))"

text \<open>A \<^verbatim>\<open>for\<close> loop whose body may raise: the first error ends it.\<close>

fun for_each ::
  "('a \<Rightarrow> engine \<Rightarrow> error option \<times> engine) \<Rightarrow> 'a list \<Rightarrow> engine \<Rightarrow> error option \<times> engine" where
  "for_each f [] e = (None, e)"
| "for_each f (x # xs) e =
     (case f x e of
        (None, e') \<Rightarrow> for_each f xs e'
      | (Some err, e') \<Rightarrow> (Some err, e'))"

text \<open>The drain of the push source nodes at the head of \<^verbatim>\<open>evaluate_graph\<close>.\<close>

definition eval_push_sources :: "world \<Rightarrow> nat list \<Rightarrow> engine \<Rightarrow> error option \<times> engine" where
  "eval_push_sources W nodes eng =
     (case execution_context eng of
        None \<Rightarrow> (Some AttributeError, eng)
      | Some ctx \<Rightarrow>
          if push_has_pending_values ctx
          then (let e1 = eng\<lparr>execution_context := Some (reset_push_has_pending_values ctx)\<rparr>
                in for_each (\<lambda>i e. if i < length nodes
                                     then (None, call_out W (NodeEval (nodes ! i)) e)
                                     else (Some IndexError, e))
                     [0 ..< push_source_nodes_end e1] e1)
          else (None, eng))"

text \<open>One round of the loop over the ordinary nodes of \<^verbatim>\<open>evaluate_graph\<close>.\<close>

definition eval_scheduled_node ::
  "world \<Rightarrow> datetime \<Rightarrow> nat list \<Rightarrow> nat \<Rightarrow> engine \<Rightarrow> error option \<times> engine" where
  "eval_scheduled_node W now nodes i eng =
     (if length (graph_schedule eng) \<le> i \<or> length nodes \<le> i then (Some IndexError, eng)
      else (let scheduled_time = graph_schedule eng ! i; node = nodes ! i
            in if scheduled_time = now
               then (None, notify_after_node_evaluation W node
                             (call_out W (NodeEval node)
                                (notify_before_node_evaluation W node eng)))
               else if scheduled_time > now
               then (case execution_context eng of
                       None \<Rightarrow> (Some AttributeError, eng)
                     | Some ctx \<Rightarrow>
                         (None, eng\<lparr>execution_context :=
                                      Some (update_next_proposed_time (constants_of W) scheduled_time ctx)\<rparr>))
               else (None, eng)))"

definition evaluate_graph :: "world \<Rightarrow> engine \<Rightarrow> error option \<times> engine" where
  "evaluate_graph W eng =
     (let e1 = notify_before_evaluation W eng
      in case execution_context e1 of
           None \<Rightarrow> (Some AttributeError, e1)
         | Some ctx \<Rightarrow>
             (let now = current_engine_time ctx; nodes = graph_nodes e1
              in case eval_push_sources W nodes e1 of
                   (Some err, e2) \<Rightarrow> (Some err, e2)
                 | (None, e2) \<Rightarrow>
                     (case for_each (eval_scheduled_node W now nodes)
                             [push_source_nodes_end e2 ..< length nodes] e2 of
                        (Some err, e3) \<Rightarrow> (Some err, e3)
                      | (None, e3) \<Rightarrow> (None, notify_after_evaluation W e3))))"

text \<open>
  The loop of \<^verbatim>\<open>run\<close>: \<^verbatim>\<open>while self._execution_context.current_engine_time <= end_time\<close>.
  It may run forever; not returning is the value \<open>None\<close>.
\<close>

partial_function (option) run_loop ::
  "world \<Rightarrow> datetime \<Rightarrow> engine \<Rightarrow> (error option \<times> engine) option" where
  "run_loop W end_t eng =
     (case execution_context eng of
        None \<Rightarrow> Some (Some AttributeError, eng)
      | Some ctx \<Rightarrow>
          if current_engine_time ctx \<le> end_t
          then (case evaluate_graph W eng of
                  (Some err, e1) \<Rightarrow> Some (Some err, e1)
                | (None, e1) \<Rightarrow>
                    (case advance_engine_time W e1 of
                       None \<Rightarrow> None
                     | Some (Some err, e2) \<Rightarrow> Some (Some err, e2)
                     | Some (None, e2) \<Rightarrow> run_loop W end_t e2))
          else Some (None, eng))"

declare run_loop.simps [code]

definition run :: "world \<Rightarrow> datetime \<Rightarrow> datetime \<Rightarrow> engine \<Rightarrow> (error option \<times> engine) option" where
  "run W start_t end_t eng =
     (let e0 = eng\<lparr>start_time := Some start_t, end_time := Some end_t\<rparr>
      in if end_t < start_t
         then Some (Some (ValueError ''End time cannot be before the start time''), e0)
         else start_stop_context W (run_loop W end_t) e0)"

section \<open>The node scheduler (\<^verbatim>\<open>hgraph/_impl/_runtime/_node.py\<close>)\<close>

text \<open>
  The scheduler holds a \<^verbatim>\<open>SortedList\<close> of pairs of a time and a tag, ordered as Python
  orders tuples (by time, then by tag), and a dictionary from tags to times. A tag of
  the dictionary may be \<^verbatim>\<open>None\<close>; a tag of the list is a string.
\<close>

record node_scheduler =
  scheduled_events :: "(datetime \<times> string) list"
  tags :: "string option \<rightharpoonup> datetime"

definition new_scheduler :: node_scheduler where
  "new_scheduler = \<lparr>scheduled_events = [], tags = Map.empty\<rparr>"

text \<open>\<^verbatim>\<open>SortedList.add\<close> and \<^verbatim>\<open>SortedList.remove\<close>; the latter raises when the value is absent.\<close>

definition sorted_list_add :: "datetime \<times> string \<Rightarrow> (datetime \<times> string) list \<Rightarrow> (datetime \<times> string) list" where
  "sorted_list_add x xs = insort x xs"

definition sorted_list_remove ::
  "datetime \<times> string \<Rightarrow> (datetime \<times> string) list \<Rightarrow> error + (datetime \<times> string) list" where
  "sorted_list_remove x xs =
     (if x \<in> set xs then Inr (remove1 x xs) else Inl (ValueError ''not in list''))"

text \<open>The argument \<^verbatim>\<open>when: datetime | timedelta\<close> of \<^verbatim>\<open>schedule\<close>.\<close>

datatype when_arg = At datetime | After timedelta

definition next_scheduled_time :: "constants \<Rightarrow> node_scheduler \<Rightarrow> datetime" where
  "next_scheduled_time K s = (case scheduled_events s of [] \<Rightarrow> MIN_DT K | e # es \<Rightarrow> fst e)"

definition is_scheduled :: "node_scheduler \<Rightarrow> bool" where
  "is_scheduled s = (scheduled_events s \<noteq> [])"

text \<open>
  The evaluation time of the graph's clock (\<open>now\<close>), and the node's \<^verbatim>\<open>is_started\<close> and
  \<^verbatim>\<open>node_ndx\<close>, are arguments of the functions that read them. The graph is not among
  the sources: a function that calls \<^verbatim>\<open>graph.schedule_node\<close> returns the calls it made,
  each the pair of its arguments.
\<close>

definition is_scheduled_now :: "datetime \<Rightarrow> node_scheduler \<Rightarrow> bool" where
  "is_scheduled_now now s = (case scheduled_events s of [] \<Rightarrow> False | e # es \<Rightarrow> fst e = now)"

definition has_tag :: "string \<Rightarrow> node_scheduler \<Rightarrow> bool" where
  "has_tag tag s = (tags s (Some tag) \<noteq> None)"

text \<open>
  \<^verbatim>\<open>pop_tag\<close> removes the tag from the dictionary before it removes the pair from the
  list: when the latter raises, the dictionary has lost the tag already.
\<close>

definition pop_tag ::
  "string \<Rightarrow> datetime option \<Rightarrow> node_scheduler \<Rightarrow> (error + datetime option) \<times> node_scheduler" where
  "pop_tag tag dflt s =
     (case tags s (Some tag) of
        Some dt \<Rightarrow>
          (let s1 = s\<lparr>tags := (tags s)(Some tag := None)\<rparr>
           in case sorted_list_remove (dt, tag) (scheduled_events s1) of
                Inl err \<Rightarrow> (Inl err, s1)
              | Inr evs \<Rightarrow> (Inr (Some dt), s1\<lparr>scheduled_events := evs\<rparr>))
      | None \<Rightarrow> (Inr dflt, s))"

text \<open>
  \<^verbatim>\<open>schedule\<close>. The only statement that can raise is the first one, so an error leaves
  the scheduler as it was.
\<close>

definition schedule ::
  "constants \<Rightarrow> datetime \<Rightarrow> bool \<Rightarrow> nat \<Rightarrow> when_arg \<Rightarrow> string option \<Rightarrow> node_scheduler
     \<Rightarrow> error + node_scheduler \<times> (nat \<times> datetime) list" where
  "schedule K now started ndx when_v tag s =
     (case (case tag of
              None \<Rightarrow> Inr (scheduled_events s)
            | Some g \<Rightarrow>
                (case tags s (Some g) of
                   None \<Rightarrow> Inr (scheduled_events s)
                 | Some t \<Rightarrow> sorted_list_remove (t, g) (scheduled_events s))) of
        Inl err \<Rightarrow> Inl err
      | Inr evs \<Rightarrow>
          (let w = (case when_v of At t \<Rightarrow> t | After d \<Rightarrow> now + d);
               is_stated = started
           in if w > (if is_stated then now else MIN_DT K)
              then (let tags' = (tags s)(tag \<mapsto> w);
                        current_first = (case evs of [] \<Rightarrow> MAX_DT K | e # es \<Rightarrow> fst e);
                        evs' = sorted_list_add (w, case tag of None \<Rightarrow> [] | Some g \<Rightarrow> g) evs;
                        s' = \<lparr>scheduled_events = evs', tags = tags'\<rparr>;
                        next_v = next_scheduled_time K s'
                    in Inr (s', if is_stated \<and> current_first > next_v then [(ndx, next_v)] else []))
              else Inr (s\<lparr>scheduled_events := evs\<rparr>, [])))"

definition un_schedule :: "string option \<Rightarrow> node_scheduler \<Rightarrow> error + node_scheduler" where
  "un_schedule tag s =
     (case tag of
        Some g \<Rightarrow>
          (case tags s (Some g) of
             Some t \<Rightarrow>
               (case sorted_list_remove (t, g) (scheduled_events s) of
                  Inl err \<Rightarrow> Inl err
                | Inr evs \<Rightarrow> Inr \<lparr>scheduled_events = evs, tags = (tags s)(Some g := None)\<rparr>)
           | None \<Rightarrow> Inr s)
      | None \<Rightarrow>
          (case scheduled_events s of
             [] \<Rightarrow> Inr s
           | e # es \<Rightarrow> Inr (s\<lparr>scheduled_events := es\<rparr>)))"

definition reset :: "node_scheduler \<Rightarrow> node_scheduler" where
  "reset s = \<lparr>scheduled_events = [], tags = Map.empty\<rparr>"

text \<open>The loop of \<^verbatim>\<open>advance\<close>: pop the head while it is due.\<close>

fun pop_due :: "datetime \<Rightarrow> (datetime \<times> string) list \<Rightarrow> (datetime \<times> string) list" where
  "pop_due until [] = []"
| "pop_due until (e # es) = (if fst e \<le> until then pop_due until es else e # es)"

definition advance :: "datetime \<Rightarrow> nat \<Rightarrow> node_scheduler \<Rightarrow> node_scheduler \<times> (nat \<times> datetime) list" where
  "advance now ndx s =
     (let until = now;
          evs = pop_due until (scheduled_events s)
      in (s\<lparr>scheduled_events := evs\<rparr>,
          case evs of [] \<Rightarrow> [] | e # es \<Rightarrow> [(ndx, fst e)]))"

section \<open>The node (\<^verbatim>\<open>NodeImpl\<close> of \<^verbatim>\<open>hgraph/_impl/_runtime/_node.py\<close>)\<close>

text \<open>What \<^verbatim>\<open>eval\<close> reads of a time-series input and of the node's signature.\<close>

record time_series_input =
  valid :: bool
  modified :: bool

record node_signature =
  valid_inputs :: "string list option"
  time_series_inputs :: "string list"

text \<open>
  What a node's \<^verbatim>\<open>eval\<close> does that can be seen from outside it: the call of
  \<^verbatim>\<open>eval_fn\<close>, the result applied to the output, and the calls of \<^verbatim>\<open>graph.schedule_node\<close>.
\<close>

datatype node_event = EvalFn | ApplyResult nat | ScheduleNode nat datetime

text \<open>
  The input bundle is a list of named inputs; as a Python container it is true when it
  is not empty. Results are named by numbers, and the node is taken to have an output.
\<close>

record node_impl =
  node_ndx :: nat
  signature :: node_signature
  input :: "(string \<times> time_series_input) list option"
  scheduler :: "node_scheduler option"
  node_is_started :: bool
  node_calls :: "node_event list"

text \<open>\<^verbatim>\<open>self.input[k]\<close>, which raises on a missing key.\<close>

definition input_item :: "(string \<times> time_series_input) list \<Rightarrow> string \<Rightarrow> error + time_series_input" where
  "input_item bundle k = (case map_of bundle k of None \<Rightarrow> Inl KeyError | Some ts \<Rightarrow> Inr ts)"

text \<open>
  \<^verbatim>\<open>all(self.input[k].valid for k in args)\<close> and \<^verbatim>\<open>any(...)\<close>: both stop at the first
  deciding element and raise when a key read before that is missing.
\<close>

fun all_valid :: "(string \<times> time_series_input) list \<Rightarrow> string list \<Rightarrow> error + bool" where
  "all_valid bundle [] = Inr True"
| "all_valid bundle (k # ks) =
     (case input_item bundle k of
        Inl err \<Rightarrow> Inl err
      | Inr ts \<Rightarrow> if valid ts then all_valid bundle ks else Inr False)"

fun any_valid :: "(string \<times> time_series_input) list \<Rightarrow> string list \<Rightarrow> error + bool" where
  "any_valid bundle [] = Inr False"
| "any_valid bundle (k # ks) =
     (case input_item bundle k of
        Inl err \<Rightarrow> Inl err
      | Inr ts \<Rightarrow> if valid ts then Inr True else any_valid bundle ks)"

text \<open>
  The checks at the head of \<^verbatim>\<open>eval\<close>: \<open>Inr True\<close> when the evaluation goes on to
  \<^verbatim>\<open>eval_fn\<close>, \<open>Inr False\<close> when \<^verbatim>\<open>eval\<close> returns before it.
\<close>

definition eval_gate :: "bool \<Rightarrow> node_impl \<Rightarrow> error + bool" where
  "eval_gate scheduled nd =
     (case input nd of
        None \<Rightarrow> Inr True
      | Some bundle \<Rightarrow>
          if bundle = [] then Inr True
          else (let args = (case valid_inputs (signature nd) of
                              Some v \<Rightarrow> v
                            | None \<Rightarrow> time_series_inputs (signature nd))
                in case all_valid bundle args of
                     Inl err \<Rightarrow> Inl err
                   | Inr False \<Rightarrow> Inr False
                   | Inr True \<Rightarrow>
                       if scheduler nd \<noteq> None \<and> \<not> scheduled
                       then (case any_valid bundle args of
                               Inl err \<Rightarrow> Inl err
                             | Inr b \<Rightarrow> Inr b)
                       else Inr True))"

text \<open>
  \<^verbatim>\<open>eval\<close>. The callable \<^verbatim>\<open>eval_fn\<close> is a parameter: it returns its result, if any, and
  the node as it leaves it (it may use the scheduler).
\<close>

definition eval ::
  "(node_impl \<Rightarrow> nat option \<times> node_impl) \<Rightarrow> datetime \<Rightarrow> node_impl \<Rightarrow> error + node_impl" where
  "eval eval_fn now nd =
     (let scheduled = (case scheduler nd of None \<Rightarrow> False | Some s \<Rightarrow> is_scheduled_now now s)
      in case eval_gate scheduled nd of
           Inl err \<Rightarrow> Inl err
         | Inr False \<Rightarrow> Inr nd
         | Inr True \<Rightarrow>
             (let r = eval_fn (nd\<lparr>node_calls := node_calls nd @ [EvalFn]\<rparr>);
                  nd1 = snd r;
                  nd2 = (case fst r of
                           None \<Rightarrow> nd1
                         | Some v \<Rightarrow> nd1\<lparr>node_calls := node_calls nd1 @ [ApplyResult v]\<rparr>)
              in if scheduled
                 then (case scheduler nd2 of
                         None \<Rightarrow> Inl AttributeError
                       | Some s \<Rightarrow>
                           (let a = advance now (node_ndx nd2) s
                            in Inr (nd2\<lparr>scheduler := Some (fst a),
                                        node_calls := node_calls nd2 @ map (\<lambda>c. ScheduleNode (fst c) (snd c)) (snd a)\<rparr>)))
                 else Inr nd2))"

section \<open>The graph builder factory (\<^verbatim>\<open>hg/_builder/_graph_builder.py\<close>)\<close>

text \<open>
  A graph builder class is the default one, \<^verbatim>\<open>PythonGraphBuilder\<close>, or a class an
  embedding supplies, named by a number. An instance records its class and the two
  arguments it was made from; node builders and edges are kept abstract.
\<close>

datatype builder_class = PythonGraphBuilder | CustomGraphBuilder nat

record ('n, 'e) graph_builder =
  builder_cls :: builder_class
  node_builders :: "'n list"
  edges :: "'e list"

text \<open>
  The state of the factory is the class attribute \<^verbatim>\<open>_graph_builder_class\<close>. A static
  method that assigns it returns the error it raised, if any, with the state it leaves.
\<close>

type_synonym factory = "builder_class option"

definition default_cls :: builder_class where
  "default_cls = PythonGraphBuilder"

definition is_declared :: "factory \<Rightarrow> bool" where
  "is_declared f = (f \<noteq> None)"

definition declared :: "factory \<Rightarrow> error + builder_class" where
  "declared f =
     (case f of
        None \<Rightarrow> Inl (RuntimeError ''No graph builder type has been declared'')
      | Some c \<Rightarrow> Inr c)"

definition declare_cls :: "builder_class \<Rightarrow> factory \<Rightarrow> error option \<times> factory" where
  "declare_cls c f =
     (if f \<noteq> None then (Some (RuntimeError ''A graph builder type has already been declared''), f)
      else (None, Some c))"

definition un_declare :: "factory \<Rightarrow> factory" where
  "un_declare f = None"

definition make :: "'n list \<Rightarrow> 'e list \<Rightarrow> factory \<Rightarrow> error + ('n, 'e) graph_builder" where
  "make nbs es f =
     (if is_declared f
      then (case declared f of
              Inl err \<Rightarrow> Inl err
            | Inr c \<Rightarrow> Inr \<lparr>builder_cls = c, node_builders = nbs, edges = es\<rparr>)
      else Inr \<lparr>builder_cls = default_cls, node_builders = nbs, edges = es\<rparr>)"

section \<open>Properties of the states and concrete inputs\<close>

text \<open>
  The time a call of \<^verbatim>\<open>schedule\<close> asks for: the absolute time given, or the relative one
  added to the evaluation time.
\<close>

definition resolved :: "datetime \<Rightarrow> when_arg \<Rightarrow> datetime" where
  "resolved now when_v = (case when_v of At t \<Rightarrow> t | After d \<Rightarrow> now + d)"

text \<open>
  The entries of the scheduler's list that carry the tag \<open>g\<close>, and the agreement of the
  list with the dictionary on the entries that carry a non-empty tag: such an entry is
  the one the dictionary records for its tag, and it is the only entry with its tag.
  (The entries of anonymous schedules carry the empty tag.)
\<close>

definition named_entries :: "string \<Rightarrow> node_scheduler \<Rightarrow> (datetime \<times> string) list" where
  "named_entries g s = filter (\<lambda>e. snd e = g) (scheduled_events s)"

definition tags_consistent :: "node_scheduler \<Rightarrow> bool" where
  "tags_consistent s =
     (\<forall>e \<in> set (scheduled_events s).
        snd e \<noteq> [] \<longrightarrow>
          tags s (Some (snd e)) = Some (fst e) \<and> length (named_entries (snd e) s) \<le> 1)"

text \<open>
  The calls a node and its code make on the scheduler over time, each with the
  evaluation time and the \<^verbatim>\<open>is_started\<close> of the node at the call where the call reads
  them, and the state a call leaves: that of its result when it returns, and the state
  at the \<^verbatim>\<open>raise\<close> when it raises.
\<close>

datatype scheduler_call =
    Schedule datetime bool when_arg "string option"
  | PopTag string
  | UnSchedule "string option"
  | Reset
  | Advance datetime

definition after_call :: "constants \<Rightarrow> nat \<Rightarrow> scheduler_call \<Rightarrow> node_scheduler \<Rightarrow> node_scheduler" where
  "after_call K ndx c s =
     (case c of
        Schedule now started when_v tag \<Rightarrow>
          (case schedule K now started ndx when_v tag s of Inl err \<Rightarrow> s | Inr r \<Rightarrow> fst r)
      | PopTag tag \<Rightarrow> snd (pop_tag tag None s)
      | UnSchedule tag \<Rightarrow> (case un_schedule tag s of Inl err \<Rightarrow> s | Inr s' \<Rightarrow> s')
      | Reset \<Rightarrow> reset s
      | Advance now \<Rightarrow> fst (advance now ndx s))"

definition after_calls ::
  "constants \<Rightarrow> nat \<Rightarrow> scheduler_call list \<Rightarrow> node_scheduler \<Rightarrow> node_scheduler" where
  "after_calls K ndx cs s = fold (after_call K ndx) cs s"

text \<open>
  Foreign code that requests a stop of the engine, as a node's \<^verbatim>\<open>eval\<close> does when it
  calls \<^verbatim>\<open>request_engine_stop\<close> on the graph's context, which is the engine's.
\<close>

definition request_stop :: "engine \<Rightarrow> engine" where
  "request_stop eng =
     eng\<lparr>execution_context := map_option request_engine_stop (execution_context eng)\<rparr>"








text \<open>Concrete constants, a clock that stands still, and a world whose foreign code does nothing.\<close>

definition example_constants :: constants where
  "example_constants = \<lparr>MIN_DT = 0, MAX_DT = 100, MIN_TD = 1, MIN_ST = 1\<rparr>"

definition still_clock :: clock where
  "still_clock n = 0"

definition no_producer :: "nat \<Rightarrow> bool" where
  "no_producer n = False"

definition no_effect :: "event \<Rightarrow> engine \<Rightarrow> engine" where
  "no_effect ev eng = eng"

definition quiet_world :: world where
  "quiet_world = \<lparr>constants_of = example_constants, utcnow = still_clock,
                   producer = no_producer, foreign = no_effect\<rparr>"

text \<open>An engine as its constructor leaves it: one node, scheduled at 10, and one observer.\<close>

definition example_engine :: engine where
  "example_engine =
     \<lparr>graph_nodes = [0], graph_schedule = [10], push_source_nodes_end = 0, run_mode = BACK_TEST,
      is_started = False, start_time = None, end_time = None, execution_context = None,
      life_cycle_observers = [7], before_evaluation_notification = [],
      after_evaluation_notification = [], clock_reads = 0, trace = []\<rparr>"

text \<open>The same engine once started for a run from 10 to 20, with an empty trace.\<close>

definition started_engine :: engine where
  "started_engine =
     example_engine\<lparr>is_started := True, start_time := Some 10, end_time := Some 20,
       execution_context := Some (BackTestExecutionContext
          \<lparr>current_time = 10, proposed_next_engine_time = 100, stop_requested = False\<rparr> 0),
       clock_reads := 2\<rparr>"










text \<open>
  A started back-test engine at time 10 with three nodes, the first two scheduled at 10
  and the third at 15, one observer and one notification for the end of the tick; and a
  world in which the \<^verbatim>\<open>eval\<close> of node 0 requests the engine to stop and no other call
  does anything.
\<close>

definition three_node_engine :: engine where
  "three_node_engine =
     \<lparr>graph_nodes = [0, 1, 2], graph_schedule = [10, 10, 15], push_source_nodes_end = 0,
      run_mode = BACK_TEST, is_started = True, start_time = Some 10, end_time = Some 20,
      execution_context = Some (BackTestExecutionContext
          \<lparr>current_time = 10, proposed_next_engine_time = 100, stop_requested = False\<rparr> 0),
      life_cycle_observers = [7], before_evaluation_notification = [],
      after_evaluation_notification = [3], clock_reads = 2, trace = []\<rparr>"

definition stop_by_first_node :: "event \<Rightarrow> engine \<Rightarrow> engine" where
  "stop_by_first_node ev eng = (if ev = NodeEval 0 then request_stop eng else eng)"

definition first_node_stops :: world where
  "first_node_stops = \<lparr>constants_of = example_constants, utcnow = still_clock,
                        producer = no_producer, foreign = stop_by_first_node\<rparr>"

text \<open>Schedulers: one with a timer tagged \<open>x\<close> at 10, one with a tagged and an anonymous timer.\<close>

definition one_timer :: node_scheduler where
  "one_timer = \<lparr>scheduled_events = [(10, ''x'')], tags = [Some ''x'' \<mapsto> 10]\<rparr>"

definition two_timers :: node_scheduler where
  "two_timers = \<lparr>scheduled_events = [(5, ''a''), (9, [])], tags = [Some ''a'' \<mapsto> 5, None \<mapsto> 9]\<rparr>"

text \<open>
  A node with a scheduler that holds no timer and one input, which has a value and has
  not ticked; and an \<^verbatim>\<open>eval_fn\<close> that returns nothing and changes nothing.
\<close>

definition silent_eval_fn :: "node_impl \<Rightarrow> nat option \<times> node_impl" where
  "silent_eval_fn nd = (None, nd)"

definition stale_node :: node_impl where
  "stale_node =
     \<lparr>node_ndx = 0,
      signature = \<lparr>valid_inputs = None, time_series_inputs = [''x'']\<rparr>,
      input = Some [(''x'', \<lparr>valid = True, modified = False\<rparr>)],
      scheduler = Some new_scheduler,
      node_is_started = True,
      node_calls = []\<rparr>"

section \<open>The execution context\<close>

lemma base_map_base: "base (map_base f ctx) = f (base ctx)"
  by (cases ctx) (simp_all add: map_base_def)


lemma stop_flag_after_set:
  "is_stop_requested (fst (set_current_engine_time K clk n v ctx)) = is_stop_requested ctx"
  by (cases ctx) (simp_all add: is_stop_requested_def)

text \<open>
  The constructors and the setter leave a proposal of at least the next cycle's time
  whenever that time is not after \<open>MAX_DT\<close>.
\<close>

lemma proposal_after_set:
  "v + MIN_TD K \<le> MAX_DT K \<Longrightarrow>
     current_engine_time (fst (set_current_engine_time K clk n v ctx)) + MIN_TD K
       \<le> proposed_next_engine_time (base (fst (set_current_engine_time K clk n v ctx)))"
  by (cases ctx) (simp_all add: current_engine_time_def)

lemma proposal_after_new:
  "t + MIN_TD K \<le> MAX_DT K \<Longrightarrow>
     current_engine_time (fst (new_BackTestExecutionContext K clk n t)) + MIN_TD K
       \<le> proposed_next_engine_time (base (fst (new_BackTestExecutionContext K clk n t)))
     \<and> current_engine_time (fst (new_RealtimeExecutionContext K clk n t)) + MIN_TD K
       \<le> proposed_next_engine_time (base (fst (new_RealtimeExecutionContext K clk n t)))"
  by (simp add: current_engine_time_def new_BackTestExecutionContext_def
      new_RealtimeExecutionContext_def)

text \<open>
  Claim C1, as amended. For every context and every time \<open>t\<close>,
  \<^verbatim>\<open>update_next_proposed_time(t)\<close> leaves the proposal unchanged when \<open>t\<close> is the
  current engine time and otherwise sets it to
  \<open>max (current + MIN_TD) (min proposed t)\<close>; the current engine time is unchanged.
  Let \<open>MIN_TD\<close> be positive. A call with a time other than the current engine time
  leaves a proposal strictly greater than the current engine time. When the proposal
  before the call is at least \<open>current + MIN_TD\<close>, every call leaves a proposal that
  has not increased, is strictly greater than the current engine time and is still at
  least \<open>current + MIN_TD\<close>.
\<close>

theorem update_next_proposed_time_narrows:
  "proposed_next_engine_time (base (update_next_proposed_time K t ctx)) =
     (if t = current_engine_time ctx then proposed_next_engine_time (base ctx)
      else max (current_engine_time ctx + MIN_TD K) (min (proposed_next_engine_time (base ctx)) t))
   \<and> current_engine_time (update_next_proposed_time K t ctx) = current_engine_time ctx
   \<and> (0 < MIN_TD K \<longrightarrow> t \<noteq> current_engine_time ctx \<longrightarrow>
        current_engine_time (update_next_proposed_time K t ctx)
          < proposed_next_engine_time (base (update_next_proposed_time K t ctx)))
   \<and> (0 < MIN_TD K \<longrightarrow>
        current_engine_time ctx + MIN_TD K \<le> proposed_next_engine_time (base ctx) \<longrightarrow>
          proposed_next_engine_time (base (update_next_proposed_time K t ctx))
            \<le> proposed_next_engine_time (base ctx)
        \<and> current_engine_time (update_next_proposed_time K t ctx)
            < proposed_next_engine_time (base (update_next_proposed_time K t ctx))
        \<and> current_engine_time (update_next_proposed_time K t ctx) + MIN_TD K
            \<le> proposed_next_engine_time (base (update_next_proposed_time K t ctx)))"
  by (auto simp add: update_next_proposed_time_def current_engine_time_def
      next_cycle_engine_time_def base_map_base)

text \<open>
  A back-test context created at time 3 proposes \<open>MAX_DT = 100\<close>; a proposal of 7
  narrows it to 7.
\<close>

theorem update_next_proposed_time_narrows_witness:
  "0 < MIN_TD example_constants
   \<and> current_engine_time (fst (new_BackTestExecutionContext example_constants still_clock 0 3))
        + MIN_TD example_constants
      \<le> proposed_next_engine_time
           (base (fst (new_BackTestExecutionContext example_constants still_clock 0 3)))
   \<and> proposed_next_engine_time
        (base (fst (new_BackTestExecutionContext example_constants still_clock 0 3))) = 100
   \<and> proposed_next_engine_time (base (update_next_proposed_time example_constants 7
        (fst (new_BackTestExecutionContext example_constants still_clock 0 3)))) = 7
   \<and> current_engine_time (update_next_proposed_time example_constants 7
        (fst (new_BackTestExecutionContext example_constants still_clock 0 3))) = 3
   \<and> 7 \<noteq> current_engine_time (fst (new_BackTestExecutionContext example_constants still_clock 0 3))
   \<and> current_engine_time (update_next_proposed_time example_constants 7
        (fst (new_BackTestExecutionContext example_constants still_clock 0 3)))
       < proposed_next_engine_time (base (update_next_proposed_time example_constants 7
        (fst (new_BackTestExecutionContext example_constants still_clock 0 3))))
   \<and> proposed_next_engine_time (base (update_next_proposed_time example_constants 7
        (fst (new_BackTestExecutionContext example_constants still_clock 0 3))))
       \<le> proposed_next_engine_time
           (base (fst (new_BackTestExecutionContext example_constants still_clock 0 3)))"
  using update_next_proposed_time_narrows [of example_constants 7
      "fst (new_BackTestExecutionContext example_constants still_clock 0 3)"]
  by (simp add: example_constants_def new_BackTestExecutionContext_def current_engine_time_def)

text \<open>
  Claim C1 as stated fails for a context created at \<open>MAX_DT\<close> (here 100): its proposal
  is \<open>MAX_DT\<close>, which is not after the current engine time. A call with the later
  time 200 raises the proposal from 100 to 101, and a call with the current time 100
  leaves a proposal that is not after the current engine time.
\<close>

theorem update_next_proposed_time_counterexample:
  "proposed_next_engine_time
       (base (fst (new_RealtimeExecutionContext example_constants still_clock 0 100))) = 100
   \<and> proposed_next_engine_time (base (update_next_proposed_time example_constants 200
         (fst (new_RealtimeExecutionContext example_constants still_clock 0 100)))) = 101
   \<and> \<not> current_engine_time (update_next_proposed_time example_constants 100
         (fst (new_RealtimeExecutionContext example_constants still_clock 0 100)))
       < proposed_next_engine_time (base (update_next_proposed_time example_constants 100
         (fst (new_RealtimeExecutionContext example_constants still_clock 0 100))))"
  by (simp add: update_next_proposed_time_def current_engine_time_def next_cycle_engine_time_def
      example_constants_def new_RealtimeExecutionContext_def map_base_def)

text \<open>
  Claim C8. In every state of a back-test context, marking push-pending values fails
  with \<^verbatim>\<open>NotImplementedError\<close>, \<^verbatim>\<open>push_has_pending_values\<close> is false, and
  \<^verbatim>\<open>wait_until_proposed_engine_time(t)\<close> returns (it never enters a wait loop) with
  the current engine time set to \<open>t\<close>, after the single clock read of the setter; the
  context is still a back-test context.
\<close>

theorem back_test_context_forbids_push:
  "mark_push_has_pending_values (BackTestExecutionContext b w)
     = Inl (NotImplementedError ''Back test engines should not contain push source nodes'')
   \<and> \<not> push_has_pending_values (BackTestExecutionContext b w)
   \<and> wait_until_proposed_engine_time K clk pr n t (BackTestExecutionContext b w)
       = Some (BackTestExecutionContext
                 (b\<lparr>current_time := t, proposed_next_engine_time := MAX_DT K\<rparr>) (clk n), Suc n)
   \<and> (\<exists>c. wait_until_proposed_engine_time K clk pr n t (BackTestExecutionContext b w) = Some (c, Suc n)
          \<and> current_engine_time c = t \<and> is_BackTestExecutionContext c)"
  by (simp add: current_engine_time_def)

section \<open>The graph engine\<close>


text \<open>
  The example states are states of a run: \<^verbatim>\<open>start\<close> takes the example engine, once
  \<^verbatim>\<open>run\<close> has stored the times 10 and 20, to the started engine (whose trace is then
  that of the start), and the tick at 10 takes the started engine to the next one.
\<close>

lemma started_engine_reached:
  "start quiet_world (example_engine\<lparr>start_time := Some 10, end_time := Some 20\<rparr>)
     = (None, started_engine\<lparr>trace := [Observer 7 on_before_start TheGraph,
                                        Observer 7 on_before_start_node (TheNode 0),
                                        NodeStart 0,
                                        Observer 7 on_after_start_node (TheNode 0),
                                        Observer 7 on_after_start TheGraph]\<rparr>)"
  by (simp add: start_def start_guard_def start_body_def example_engine_def started_engine_def
      quiet_world_def notify_before_start_def notify_after_start_def
      notify_before_start_node_def notify_after_start_node_def notify_observers_def
      call_out_def no_effect_def new_BackTestExecutionContext_def example_constants_def
      still_clock_def)


text \<open>
  A whole run of the example engine from 10 to 10: one tick, between the start and the
  stop of the engine.
\<close>

lemma run_single_tick:
  "run quiet_world 10 10 example_engine =
     Some (None, example_engine\<lparr>start_time := Some 10, end_time := Some 10, clock_reads := 4,
       trace := [Observer 7 on_before_start TheGraph,
                 Observer 7 on_before_start_node (TheNode 0),
                 NodeStart 0,
                 Observer 7 on_after_start_node (TheNode 0),
                 Observer 7 on_after_start TheGraph,
                 Observer 7 on_before_evaluation TheGraph,
                 Observer 7 on_before_node_evaluation (TheNode 0),
                 NodeEval 0,
                 Observer 7 on_after_node_evaluation (TheNode 0),
                 Observer 7 on_after_evaluation TheGraph,
                 Observer 7 on_before_stop TheGraph,
                 Observer 7 on_before_stop_node (TheNode 0),
                 NodeStop 0,
                 Observer 7 on_before_start_node (TheNode 0),
                 Observer 7 on_after_stop TheGraph]\<rparr>)"
  by code_simp

text \<open>
  Claim C3 is not what the code does: the loop of \<^verbatim>\<open>stop\<close> calls
  \<^verbatim>\<open>notify_before_start_node\<close> after each node's \<^verbatim>\<open>stop\<close>, where \<^verbatim>\<open>start\<close> calls
  \<^verbatim>\<open>notify_after_start_node\<close>. When the body of \<^verbatim>\<open>stop\<close> runs on the started example
  engine, its observer 7 receives \<^verbatim>\<open>on_before_start_node\<close> after the stop of node 0
  and never \<^verbatim>\<open>on_after_stop_node\<close>.
\<close>

theorem stop_notifies_before_start_node:
  "trace (snd (stop_body quiet_world started_engine)) =
     [Observer 7 on_before_stop TheGraph,
      Observer 7 on_before_stop_node (TheNode 0),
      NodeStop 0,
      Observer 7 on_before_start_node (TheNode 0),
      Observer 7 on_after_stop TheGraph]"
  by (simp add: started_engine_def example_engine_def quiet_world_def notify_observers_def
      call_out_def no_effect_def stop_body_def notify_before_stop_def
      notify_after_stop_def notify_before_stop_node_def notify_before_start_node_def)

text \<open>
  Claim C4, as amended. A run whose end time is before its start time raises
  \<^verbatim>\<open>ValueError\<close> before the engine is started: the engine is left as it was but for its
  start and end times, which hold the arguments of the run. So \<^verbatim>\<open>start\<close> is not
  invoked, no tick is evaluated, no observer or node is called and the clock is not read.
\<close>

theorem run_rejects_end_before_start:
  "end_t < start_t \<Longrightarrow>
     run W start_t end_t eng =
       Some (Some (ValueError ''End time cannot be before the start time''),
             eng\<lparr>start_time := Some start_t, end_time := Some end_t\<rparr>)
     \<and> (\<exists>e. run W start_t end_t eng
               = Some (Some (ValueError ''End time cannot be before the start time''), e)
            \<and> is_started e = is_started eng \<and> execution_context e = execution_context eng
            \<and> trace e = trace eng \<and> clock_reads e = clock_reads eng
            \<and> graph_schedule e = graph_schedule eng)"
  by (simp add: run_def)

theorem run_rejects_end_before_start_witness:
  "(5::datetime) < 10
   \<and> run quiet_world 10 5 example_engine =
       Some (Some (ValueError ''End time cannot be before the start time''),
             example_engine\<lparr>start_time := Some 10, end_time := Some 5\<rparr>)"
  using run_rejects_end_before_start [of 5 10 quiet_world example_engine] by simp

text \<open>
  Claim C4 as stated fails: the run that is rejected has changed the engine. The example
  engine has no start time before the run and the start time 10 after it.
\<close>

theorem run_rejects_end_before_start_counterexample:
  "start_time example_engine = None
   \<and> run quiet_world 10 5 example_engine =
       Some (Some (ValueError ''End time cannot be before the start time''),
             example_engine\<lparr>start_time := Some 10, end_time := Some 5\<rparr>)
   \<and> start_time (example_engine\<lparr>start_time := Some 10, end_time := Some 5\<rparr>) = Some 10"
  by (simp add: run_def example_engine_def)

subsection \<open>A tick runs to its end whether or not a stop is requested\<close>


















subsection \<open>The wait of the real-time context\<close>











lemma three_node_run_loop:
  "run_loop first_node_stops 20 three_node_engine =
     Some (None, three_node_engine\<lparr>
       execution_context := Some (BackTestExecutionContext
          \<lparr>current_time = 21, proposed_next_engine_time = 100, stop_requested = True\<rparr> 0),
       after_evaluation_notification := [], clock_reads := 3,
       trace := [Observer 7 on_before_evaluation TheGraph,
                 Observer 7 on_before_node_evaluation (TheNode 0),
                 NodeEval 0,
                 Observer 7 on_after_node_evaluation (TheNode 0),
                 Observer 7 on_before_node_evaluation (TheNode 1),
                 NodeEval 1,
                 Observer 7 on_after_node_evaluation (TheNode 1),
                 Notification 3,
                 Observer 7 on_after_evaluation TheGraph]\<rparr>)"
  by code_simp


section \<open>The node scheduler\<close>

lemma fst_mono_lex: "(a::datetime \<times> string) \<le> b \<Longrightarrow> fst a \<le> fst b"
  by (cases a; cases b) (auto simp: less_eq_prod_def)

text \<open>On a sorted list the loop of \<^verbatim>\<open>advance\<close> removes exactly the entries that are due.\<close>

lemma pop_due_filter:
  "sorted evs \<Longrightarrow> pop_due until evs = filter (\<lambda>e. until < fst e) evs"
proof (induction evs)
  case Nil
  then show ?case by simp
next
  case (Cons e es)
  show ?case
  proof (cases "fst e \<le> until")
    case True
    with Cons show ?thesis by simp
  next
    case False
    have "\<forall>x \<in> set es. until < fst x"
    proof
      fix x assume "x \<in> set es"
      with Cons.prems have "e \<le> x" by simp
      then have "fst e \<le> fst x" by (rule fst_mono_lex)
      with False show "until < fst x" by simp
    qed
    then have "filter (\<lambda>e. until < fst e) es = es" by (simp add: filter_id_conv)
    with False show ?thesis by simp
  qed
qed

lemma length_filter_insort:
  "length (filter P (insort x xs)) = length (filter P (x # xs))"
  by (induction xs) auto

lemma length_filter_remove1:
  "x \<in> set xs \<Longrightarrow>
     length (filter P xs) = length (filter P (remove1 x xs)) + (if P x then 1 else 0)"
  by (induction xs) auto

lemma in_set_remove1D: "e \<in> set (remove1 x xs) \<Longrightarrow> e \<in> set xs"
  using set_remove1_subset [of x xs] by auto

lemma tags_consistentI:
  assumes "\<And>e. e \<in> set (scheduled_events s) \<Longrightarrow> snd e \<noteq> [] \<Longrightarrow>
             tags s (Some (snd e)) = Some (fst e)
             \<and> length (filter (\<lambda>x. snd x = snd e) (scheduled_events s)) \<le> 1"
  shows "tags_consistent s"
  using assms by (auto simp: tags_consistent_def named_entries_def)

lemma tags_consistentD:
  assumes "tags_consistent s" "e \<in> set (scheduled_events s)" "snd e \<noteq> []"
  shows "tags s (Some (snd e)) = Some (fst e)"
    and "length (filter (\<lambda>x. snd x = snd e) (scheduled_events s)) \<le> 1"
  using assms by (auto simp: tags_consistent_def named_entries_def)

lemma named_none:
  "tags_consistent s \<Longrightarrow> g \<noteq> [] \<Longrightarrow> tags s (Some g) = None \<Longrightarrow>
     filter (\<lambda>e. snd e = g) (scheduled_events s) = []"
  by (auto simp: tags_consistent_def filter_empty_conv)

lemma named_one:
  assumes "tags_consistent s" "g \<noteq> []" "tags s (Some g) = Some t"
    and mem: "(t, g) \<in> set (scheduled_events s)"
  shows "filter (\<lambda>e. snd e = g) (remove1 (t, g) (scheduled_events s)) = []"
proof -
  have "length (filter (\<lambda>e. snd e = g) (scheduled_events s)) \<le> 1"
    using assms by (force simp: tags_consistent_def named_entries_def)
  moreover have "length (filter (\<lambda>e. snd e = g) (scheduled_events s))
      = length (filter (\<lambda>e. snd e = g) (remove1 (t, g) (scheduled_events s))) + 1"
    using length_filter_remove1 [OF mem, of "\<lambda>e. snd e = g"] by simp
  ultimately show ?thesis by simp
qed

lemma consistent_remove:
  assumes inv: "tags_consistent s" and g: "tags s (Some g) = Some t"
    and mem: "(t, g) \<in> set (scheduled_events s)"
  shows "tags_consistent (s\<lparr>scheduled_events := remove1 (t, g) (scheduled_events s)\<rparr>)"
proof (rule tags_consistentI)
  fix e
  assume e: "e \<in> set (scheduled_events (s\<lparr>scheduled_events := remove1 (t, g) (scheduled_events s)\<rparr>))"
    and ne: "snd e \<noteq> []"
  from e have e': "e \<in> set (scheduled_events s)" by (auto dest: in_set_remove1D)
  have "length (filter (\<lambda>x. snd x = snd e) (remove1 (t, g) (scheduled_events s)))
        \<le> length (filter (\<lambda>x. snd x = snd e) (scheduled_events s))"
    using length_filter_remove1 [OF mem, of "\<lambda>x. snd x = snd e"] by simp
  then show "tags (s\<lparr>scheduled_events := remove1 (t, g) (scheduled_events s)\<rparr>) (Some (snd e))
        = Some (fst e)
      \<and> length (filter (\<lambda>x. snd x = snd e)
           (scheduled_events (s\<lparr>scheduled_events := remove1 (t, g) (scheduled_events s)\<rparr>))) \<le> 1"
    using tags_consistentD [OF inv e' ne] by simp
qed

lemma consistent_add:
  assumes inv: "tags_consistent s"
    and fresh: "g \<noteq> [] \<Longrightarrow> filter (\<lambda>e. snd e = g) (scheduled_events s) = []"
  shows "tags_consistent \<lparr>scheduled_events = sorted_list_add (w, g) (scheduled_events s),
                           tags = (tags s)(Some g \<mapsto> w)\<rparr>"
proof (rule tags_consistentI)
  let ?s' = "\<lparr>scheduled_events = sorted_list_add (w, g) (scheduled_events s),
              tags = (tags s)(Some g \<mapsto> w)\<rparr>"
  fix e
  assume e: "e \<in> set (scheduled_events ?s')" and ne: "snd e \<noteq> []"
  from e have split: "e = (w, g) \<or> e \<in> set (scheduled_events s)"
    by (auto simp: sorted_list_add_def set_insort_key)
  show "tags ?s' (Some (snd e)) = Some (fst e)
      \<and> length (filter (\<lambda>x. snd x = snd e) (scheduled_events ?s')) \<le> 1"
  proof (cases "snd e = g")
    case True
    with ne have "g \<noteq> []" by simp
    from fresh [OF this] have none: "filter (\<lambda>e. snd e = g) (scheduled_events s) = []" .
    then have "e \<notin> set (scheduled_events s)" using True by (auto simp: filter_empty_conv)
    with split have "e = (w, g)" by simp
    then show ?thesis using none by (simp add: sorted_list_add_def length_filter_insort)
  next
    case False
    with split have e': "e \<in> set (scheduled_events s)" by auto
    show ?thesis using tags_consistentD [OF inv e' ne] False
      by (simp add: sorted_list_add_def length_filter_insort)
  qed
qed

lemma consistent_add_anonymous:
  assumes inv: "tags_consistent s"
  shows "tags_consistent \<lparr>scheduled_events = sorted_list_add (w, []) (scheduled_events s),
                           tags = (tags s)(None \<mapsto> w)\<rparr>"
proof (rule tags_consistentI)
  let ?s' = "\<lparr>scheduled_events = sorted_list_add (w, []) (scheduled_events s),
              tags = (tags s)(None \<mapsto> w)\<rparr>"
  fix e
  assume e: "e \<in> set (scheduled_events ?s')" and ne: "snd e \<noteq> []"
  from e ne have e': "e \<in> set (scheduled_events s)"
    by (auto simp: sorted_list_add_def set_insort_key)
  show "tags ?s' (Some (snd e)) = Some (fst e)
      \<and> length (filter (\<lambda>x. snd x = snd e) (scheduled_events ?s')) \<le> 1"
    using tags_consistentD [OF inv e' ne] ne
    by (simp add: sorted_list_add_def length_filter_insort)
qed

text \<open>Every call of \<^verbatim>\<open>schedule\<close> that returns keeps the list and the dictionary in agreement.\<close>

lemma schedule_keeps_tags_consistent:
  assumes inv: "tags_consistent s"
    and ok: "schedule K now started ndx when_v tag s = Inr (s', cs)"
  shows "tags_consistent s'"
proof (cases tag)
  case None
  let ?w = "case when_v of At t \<Rightarrow> t | After d \<Rightarrow> now + d"
  show ?thesis
  proof (cases "(if started then now else MIN_DT K) < ?w")
    case True
    with ok None have "s' = \<lparr>scheduled_events = sorted_list_add (?w, []) (scheduled_events s),
                             tags = (tags s)(None \<mapsto> ?w)\<rparr>"
      by (auto simp: schedule_def Let_def split: if_splits)
    then show ?thesis using consistent_add_anonymous [OF inv] by simp
  next
    case False
    with ok None have "s' = s" by (auto simp: schedule_def Let_def split: if_splits)
    then show ?thesis using inv by simp
  qed
next
  case (Some g)
  let ?w = "case when_v of At t \<Rightarrow> t | After d \<Rightarrow> now + d"
  let ?acc = "(if started then now else MIN_DT K) < ?w"
  show ?thesis
  proof (cases "tags s (Some g)")
    case None
    show ?thesis
    proof (cases ?acc)
      case True
      with ok Some None have s': "s' = \<lparr>scheduled_events = sorted_list_add (?w, g) (scheduled_events s),
                                       tags = (tags s)(Some g \<mapsto> ?w)\<rparr>"
        by (auto simp: schedule_def Let_def split: if_splits)
      show ?thesis unfolding s'
        by (rule consistent_add [OF inv]) (rule named_none [OF inv _ None])
    next
      case False
      with ok Some None have "s' = s" by (auto simp: schedule_def Let_def split: if_splits)
      then show ?thesis using inv by simp
    qed
  next
    case (Some t)
    note t = this
    from ok \<open>tag = Some g\<close> t have mem: "(t, g) \<in> set (scheduled_events s)"
      by (auto simp: schedule_def sorted_list_remove_def split: if_splits)
    let ?s1 = "s\<lparr>scheduled_events := remove1 (t, g) (scheduled_events s)\<rparr>"
    have inv1: "tags_consistent ?s1" by (rule consistent_remove [OF inv t mem])
    show ?thesis
    proof (cases ?acc)
      case True
      with ok \<open>tag = Some g\<close> t mem
      have s': "s' = \<lparr>scheduled_events = sorted_list_add (?w, g) (scheduled_events ?s1),
                     tags = (tags ?s1)(Some g \<mapsto> ?w)\<rparr>"
        by (auto simp: schedule_def Let_def sorted_list_remove_def split: if_splits)
      show ?thesis unfolding s'
      proof (rule consistent_add [OF inv1])
        assume "g \<noteq> []"
        then show "filter (\<lambda>e. snd e = g) (scheduled_events ?s1) = []"
          using named_one [OF inv _ t mem] by simp
      qed
    next
      case False
      with ok \<open>tag = Some g\<close> t mem have "s' = ?s1"
        by (auto simp: schedule_def Let_def sorted_list_remove_def split: if_splits)
      then show ?thesis using inv1 by simp
    qed
  qed
qed

lemma consistent_at_most_one:
  assumes "tags_consistent s" "g \<noteq> []"
  shows "length (named_entries g s) \<le> 1"
proof (cases "named_entries g s")
  case Nil
  then show ?thesis by simp
next
  case (Cons e es)
  then have "e \<in> set (named_entries g s)" by simp
  then have "e \<in> set (scheduled_events s)" "snd e = g" by (auto simp: named_entries_def)
  with assms show ?thesis by (auto simp: tags_consistent_def)
qed

text \<open>\<^verbatim>\<open>schedule\<close> keeps the list sorted, as a \<^verbatim>\<open>SortedList\<close> is.\<close>

lemma schedule_keeps_sorted:
  assumes "sorted (scheduled_events s)"
    and "schedule K now started ndx when_v tag s = Inr (s', cs)"
  shows "sorted (scheduled_events s')"
  using assms
  by (auto simp: schedule_def Let_def sorted_list_remove_def sorted_list_add_def
      sorted_insort sorted_remove1 split: option.splits if_splits)

lemma consistent_shrink:
  assumes inv: "tags_consistent s"
    and ev: "scheduled_events s' = evs'" and tg0: "tags s' = tags'"
    and sub: "\<And>e. e \<in> set evs' \<Longrightarrow> e \<in> set (scheduled_events s)"
    and len: "\<And>g. length (filter (\<lambda>e. snd e = g) evs')
                  \<le> length (filter (\<lambda>e. snd e = g) (scheduled_events s))"
    and tg: "\<And>e. e \<in> set evs' \<Longrightarrow> snd e \<noteq> [] \<Longrightarrow> tags' (Some (snd e)) = tags s (Some (snd e))"
  shows "tags_consistent s'"
proof (rule tags_consistentI)
  fix e
  assume "e \<in> set (scheduled_events s')" and ne: "snd e \<noteq> []"
  then have e: "e \<in> set evs'" using ev by simp
  then have e': "e \<in> set (scheduled_events s)" using sub by simp
  show "tags s' (Some (snd e)) = Some (fst e)
      \<and> length (filter (\<lambda>x. snd x = snd e) (scheduled_events s')) \<le> 1"
    using tags_consistentD [OF inv e' ne] tg [OF e ne] len [of "snd e"] ev tg0 by simp
qed

lemma pop_due_suffix: "\<exists>pre. evs = pre @ pop_due until evs"
proof (induction evs)
  case Nil
  then show ?case by simp
next
  case (Cons e es)
  then obtain pre where pre: "es = pre @ pop_due until es" by blast
  show ?case
  proof (cases "fst e \<le> until")
    case True
    have "e # es = (e # pre) @ pop_due until es" using pre by simp
    with True show ?thesis by (metis pop_due.simps(2))
  next
    case False
    then have "e # es = [] @ pop_due until (e # es)" by simp
    then show ?thesis by blast
  qed
qed

lemma suffix_facts:
  assumes "evs = pre @ suf"
  shows "e \<in> set suf \<Longrightarrow> e \<in> set evs"
    and "length (filter P suf) \<le> length (filter P evs)"
    and "sorted evs \<Longrightarrow> sorted suf"
  using assms by (auto simp: sorted_append)

lemma advance_keeps:
  assumes inv: "tags_consistent s"
  shows "tags_consistent (fst (advance now ndx s))"
proof -
  obtain pre where pre: "scheduled_events s = pre @ pop_due now (scheduled_events s)"
    using pop_due_suffix by blast
  show ?thesis
  proof (rule consistent_shrink [OF inv, where evs' = "pop_due now (scheduled_events s)"
        and tags' = "tags s"])
    show "scheduled_events (fst (advance now ndx s)) = pop_due now (scheduled_events s)"
      by (simp add: advance_def Let_def)
    show "tags (fst (advance now ndx s)) = tags s" by (simp add: advance_def Let_def)
  qed (use suffix_facts [OF pre] in auto)
qed

lemma advance_keeps_sorted:
  "sorted (scheduled_events s) \<Longrightarrow> sorted (scheduled_events (fst (advance now ndx s)))"
  using pop_due_suffix [of "scheduled_events s" now] suffix_facts(3)
  by (fastforce simp: advance_def Let_def)

lemma remove1_len:
  "length (filter P (remove1 x xs)) \<le> length (filter P xs)"
  by (induction xs) auto

text \<open>Removing the entry the dictionary records for a tag, with or without the tag.\<close>

lemma consistent_drop_tag:
  assumes inv: "tags_consistent s" and t: "tags s (Some g) = Some t"
    and ev: "scheduled_events s' = (if (t, g) \<in> set (scheduled_events s)
                                     then remove1 (t, g) (scheduled_events s)
                                     else scheduled_events s)"
    and tg: "tags s' = (tags s)(Some g := None)"
  shows "tags_consistent s'"
proof (rule consistent_shrink [OF inv ev tg])
  fix e
  assume "e \<in> set (if (t, g) \<in> set (scheduled_events s)
                      then remove1 (t, g) (scheduled_events s) else scheduled_events s)"
  then show "e \<in> set (scheduled_events s)" by (auto dest: in_set_remove1D split: if_splits)
next
  fix h
  show "length (filter (\<lambda>e. snd e = h)
          (if (t, g) \<in> set (scheduled_events s)
           then remove1 (t, g) (scheduled_events s) else scheduled_events s))
        \<le> length (filter (\<lambda>e. snd e = h) (scheduled_events s))"
    by (simp add: remove1_len)
next
  fix e
  assume e: "e \<in> set (if (t, g) \<in> set (scheduled_events s)
                      then remove1 (t, g) (scheduled_events s) else scheduled_events s)"
    and ne: "snd e \<noteq> []"
  have "snd e \<noteq> g"
  proof
    assume eq: "snd e = g"
    with ne have g: "g \<noteq> []" by simp
    show False
    proof (cases "(t, g) \<in> set (scheduled_events s)")
      case True
      from named_one [OF inv g t True] e eq True show False
        by (auto simp: filter_empty_conv)
    next
      case False
      with e have e': "e \<in> set (scheduled_events s)" by simp
      from tags_consistentD(1) [OF inv e' ne] eq t have "fst e = t" by simp
      with eq have "e = (t, g)" by (cases e) simp
      with e' False show False by simp
    qed
  qed
  then show "((tags s)(Some g := None)) (Some (snd e)) = tags s (Some (snd e))" by simp
qed

lemma un_schedule_keeps:
  assumes inv: "tags_consistent s"
  shows "tags_consistent (case un_schedule tag s of Inl err \<Rightarrow> s | Inr s' \<Rightarrow> s')"
proof (cases tag)
  case None
  show ?thesis
  proof (cases "scheduled_events s")
    case Nil
    with None inv show ?thesis by (simp add: un_schedule_def)
  next
    case (Cons e es)
    have "tags_consistent (s\<lparr>scheduled_events := es\<rparr>)"
      by (rule consistent_shrink [OF inv, where evs' = es and tags' = "tags s"])
         (use Cons in auto)
    with None Cons show ?thesis by (simp add: un_schedule_def)
  qed
next
  case (Some g)
  show ?thesis
  proof (cases "tags s (Some g)")
    case None
    with Some inv show ?thesis by (simp add: un_schedule_def)
  next
    case (Some t)
    note t = this
    show ?thesis
    proof (cases "(t, g) \<in> set (scheduled_events s)")
      case False
      with \<open>tag = Some g\<close> t inv show ?thesis
        by (simp add: un_schedule_def sorted_list_remove_def)
    next
      case True
      have "tags_consistent \<lparr>scheduled_events = remove1 (t, g) (scheduled_events s),
                              tags = (tags s)(Some g := None)\<rparr>"
        by (rule consistent_drop_tag [OF inv t]) (simp_all add: True)
      with \<open>tag = Some g\<close> t True show ?thesis
        by (simp add: un_schedule_def sorted_list_remove_def)
    qed
  qed
qed

lemma pop_tag_keeps:
  assumes inv: "tags_consistent s"
  shows "tags_consistent (snd (pop_tag g dflt s))"
proof (cases "tags s (Some g)")
  case None
  with inv show ?thesis by (simp add: pop_tag_def)
next
  case (Some t)
  show ?thesis
    by (rule consistent_drop_tag [OF inv Some])
       (simp_all add: pop_tag_def Let_def sorted_list_remove_def Some)
qed

lemma schedule_call_keeps_tags_consistent:
  assumes inv: "tags_consistent s"
  shows "tags_consistent (case schedule K now started ndx when_v tag s of Inl err \<Rightarrow> s | Inr r \<Rightarrow> fst r)"
proof (cases "schedule K now started ndx when_v tag s")
  case (Inl a)
  with inv show ?thesis by simp
next
  case (Inr r)
  then have "schedule K now started ndx when_v tag s = Inr (fst r, snd r)" by simp
  from schedule_keeps_tags_consistent [OF inv this] Inr show ?thesis by simp
qed

lemma new_scheduler_consistent: "tags_consistent new_scheduler"
  by (simp add: tags_consistent_def new_scheduler_def)

lemma after_call_keeps:
  "tags_consistent s \<Longrightarrow> tags_consistent (after_call K ndx c s)"
  by (cases c)
     (simp_all add: after_call_def schedule_call_keeps_tags_consistent pop_tag_keeps un_schedule_keeps advance_keeps
        reset_def tags_consistent_def [of "\<lparr>scheduled_events = [], tags = Map.empty\<rparr>"])

text \<open>Every state reached from a new scheduler is in agreement and sorted.\<close>

lemma after_calls_keeps:
  "tags_consistent s \<Longrightarrow> tags_consistent (after_calls K ndx cs s)"
  unfolding after_calls_def
  by (induction cs arbitrary: s) (simp_all add: after_call_keeps)

lemma after_call_sorted:
  "sorted (scheduled_events s) \<Longrightarrow> sorted (scheduled_events (after_call K ndx c s))"
proof (cases c)
  case (Schedule now started when_v tag)
  assume srt: "sorted (scheduled_events s)"
  show ?thesis
  proof (cases "schedule K now started ndx when_v tag s")
    case (Inl a)
    with srt Schedule show ?thesis by (simp add: after_call_def)
  next
    case (Inr r)
    then have "schedule K now started ndx when_v tag s = Inr (fst r, snd r)" by simp
    from schedule_keeps_sorted [OF srt this] Inr Schedule show ?thesis by (simp add: after_call_def)
  qed
next
  case (PopTag g)
  assume "sorted (scheduled_events s)"
  then show ?thesis using PopTag
    by (auto simp: after_call_def pop_tag_def Let_def sorted_list_remove_def sorted_remove1
        split: option.splits)
next
  case (UnSchedule tag)
  assume "sorted (scheduled_events s)"
  then show ?thesis using UnSchedule
    by (auto simp: after_call_def un_schedule_def sorted_list_remove_def sorted_remove1
        split: option.splits list.splits)
next
  case Reset
  then show ?thesis by (simp add: after_call_def reset_def)
next
  case (Advance now)
  assume "sorted (scheduled_events s)"
  then show ?thesis using Advance by (simp add: after_call_def advance_keeps_sorted)
qed

lemma after_calls_sorted:
  "sorted (scheduled_events s) \<Longrightarrow> sorted (scheduled_events (after_calls K ndx cs s))"
  unfolding after_calls_def
  by (induction cs arbitrary: s) (simp_all add: after_call_sorted)

text \<open>The example schedulers are states reached from a new scheduler.\<close>

lemma one_timer_reached:
  "after_calls example_constants 0 [Schedule 5 True (At 10) (Some ''x'')] new_scheduler = one_timer"
  by (simp add: after_calls_def after_call_def schedule_def one_timer_def new_scheduler_def
      example_constants_def sorted_list_add_def next_scheduled_time_def)

lemma two_timers_reached:
  "after_calls example_constants 3
     [Schedule 0 True (At 5) (Some ''a''), Schedule 0 True (After 9) None] new_scheduler
   = two_timers"
  by (simp add: after_calls_def after_call_def schedule_def two_timers_def new_scheduler_def
      example_constants_def sorted_list_add_def next_scheduled_time_def)

text \<open>
  In every state reached from a new scheduler at most one entry of the list carries
  any given non-empty tag.
\<close>

lemma at_most_one_entry_per_tag:
  "g \<noteq> [] \<Longrightarrow> length (named_entries g (after_calls K ndx calls new_scheduler)) \<le> 1"
  using after_calls_keeps [OF new_scheduler_consistent] by (rule consistent_at_most_one)

text \<open>
  Claim C5 is not what the code does: a call of \<^verbatim>\<open>schedule\<close> in the past is not always
  ignored silently, it can raise \<^verbatim>\<open>ValueError\<close>. \<^verbatim>\<open>schedule\<close> removes the entry that the
  dictionary records for the tag before it compares the times, and neither its rejected
  path, nor \<^verbatim>\<open>advance\<close>, nor \<^verbatim>\<open>un_schedule\<close> without a tag takes the tag out of the
  dictionary when the entry leaves the list (\<^verbatim>\<open>un_schedule\<close> with a tag and \<^verbatim>\<open>pop_tag\<close>
  do). A started node at time 5 schedules the tag \<open>x\<close> at 10 and then at the past time
  3: the second call inserts nothing, but it removes the pending entry at 10 and leaves
  the tag in the dictionary; a third call for the tag at the past time 3 raises; so does
  a call for the tag at the past time 3 made at time 10, after \<^verbatim>\<open>advance\<close> has dropped
  the entry at 10, and after \<^verbatim>\<open>un_schedule\<close> without a tag has.
\<close>

theorem schedule_in_the_past_raises:
  "schedule example_constants 5 True 0 (At 10) (Some ''x'') new_scheduler
       = Inr (one_timer, [(0, 10)])
   \<and> schedule example_constants 5 True 0 (At 3) (Some ''x'') one_timer
       = Inr (one_timer\<lparr>scheduled_events := []\<rparr>, [])
   \<and> tags (one_timer\<lparr>scheduled_events := []\<rparr>) (Some ''x'') = Some 10
   \<and> schedule example_constants 5 True 0 (At 3) (Some ''x'') (one_timer\<lparr>scheduled_events := []\<rparr>)
       = Inl (ValueError ''not in list'')
   \<and> advance 10 0 one_timer = (one_timer\<lparr>scheduled_events := []\<rparr>, [])
   \<and> un_schedule None one_timer = Inr (one_timer\<lparr>scheduled_events := []\<rparr>)
   \<and> schedule example_constants 10 True 0 (At 3) (Some ''x'') (one_timer\<lparr>scheduled_events := []\<rparr>)
       = Inl (ValueError ''not in list'')"
  by (simp add: schedule_def advance_def un_schedule_def one_timer_def new_scheduler_def
      example_constants_def sorted_list_remove_def sorted_list_add_def next_scheduled_time_def)

text \<open>
  Claim C6. The list of a \<^verbatim>\<open>SortedList\<close> is sorted. After \<^verbatim>\<open>advance\<close> the list holds
  exactly the entries whose time is after the current engine time, so none at or before
  it remains; the dictionary is unchanged; when entries remain
  \<^verbatim>\<open>graph.schedule_node\<close> is called once, with the node's index and the time of the
  head, which is the smallest time that remains, and otherwise it is not called.
\<close>

theorem advance_drops_due_entries:
  assumes "sorted (scheduled_events s)"
  shows "scheduled_events (fst (advance now ndx s)) = filter (\<lambda>e. now < fst e) (scheduled_events s)
       \<and> (\<forall>e \<in> set (scheduled_events (fst (advance now ndx s))). now < fst e)
       \<and> tags (fst (advance now ndx s)) = tags s
       \<and> snd (advance now ndx s) =
           (case scheduled_events (fst (advance now ndx s)) of
              [] \<Rightarrow> []
            | e # es \<Rightarrow> [(ndx, fst e)])
       \<and> (\<forall>e \<in> set (scheduled_events (fst (advance now ndx s))).
             fst (hd (scheduled_events (fst (advance now ndx s)))) \<le> fst e)
       \<and> sorted (scheduled_events (fst (advance now ndx s)))"
proof -
  let ?evs = "scheduled_events (fst (advance now ndx s))"
  have evs: "?evs = filter (\<lambda>e. now < fst e) (scheduled_events s)"
    using assms by (simp add: advance_def Let_def pop_due_filter)
  have srt: "sorted ?evs" using assms unfolding evs by (simp add: sorted_wrt_filter)
  have hd_least: "\<forall>e \<in> set ?evs. fst (hd ?evs) \<le> fst e"
  proof (cases ?evs)
    case Nil
    then show ?thesis by simp
  next
    case (Cons x xs)
    with srt have "\<forall>e \<in> set xs. x \<le> e" by simp
    then show ?thesis using Cons by (auto dest: fst_mono_lex)
  qed
  show ?thesis
    using evs srt hd_least by (simp add: advance_def Let_def)
qed

text \<open>
  At time 5 the timer at 5 is dropped, the anonymous timer at 9 remains, and node 3 is
  scheduled at 9.
\<close>

theorem advance_drops_due_entries_witness:
  "sorted (scheduled_events two_timers)
   \<and> scheduled_events (fst (advance 5 3 two_timers)) = [(9, [])]
   \<and> snd (advance 5 3 two_timers) = [(3, 9)]"
  using advance_drops_due_entries [of two_timers 5 3]
  by (simp add: two_timers_def)

text \<open>
  Claim C10. A call \<^verbatim>\<open>schedule(when, tag=None)\<close> that is accepted writes the time under
  the key \<^verbatim>\<open>None\<close> of the dictionary and queues an entry with the empty tag. Two such
  calls in a row leave the second time under \<^verbatim>\<open>None\<close>, the first one overwritten, and
  both entries in the list, which has grown by two: the dictionary and the list do not
  correspond one to one on anonymous entries.
\<close>

theorem anonymous_schedule_overwrites_none_tag:
  assumes "(if started then now else MIN_DT K) < resolved now v1"
    and "(if started then now else MIN_DT K) < resolved now v2"
  shows "(\<exists>c1. schedule K now started ndx v1 None s
                = Inr (\<lparr>scheduled_events = insort (resolved now v1, []) (scheduled_events s),
                        tags = (tags s)(None \<mapsto> resolved now v1)\<rparr>, c1))
       \<and> (\<exists>c2. schedule K now started ndx v2 None
                  \<lparr>scheduled_events = insort (resolved now v1, []) (scheduled_events s),
                   tags = (tags s)(None \<mapsto> resolved now v1)\<rparr>
                = Inr (\<lparr>scheduled_events =
                          insort (resolved now v2, []) (insort (resolved now v1, []) (scheduled_events s)),
                        tags = (tags s)(None \<mapsto> resolved now v2)\<rparr>, c2))
       \<and> length (insort (resolved now v2, []) (insort (resolved now v1, []) (scheduled_events s)))
           = length (scheduled_events s) + 2
       \<and> (resolved now v1, []) \<in> set (insort (resolved now v2, [])
                                          (insort (resolved now v1, []) (scheduled_events s)))
       \<and> (resolved now v2, []) \<in> set (insort (resolved now v2, [])
                                          (insort (resolved now v1, []) (scheduled_events s)))"
  using assms
  by (auto simp: schedule_def Let_def sorted_list_add_def set_insort_key resolved_def)

text \<open>
  A started node at time 5 makes anonymous schedules at 7 and, by a relative time, at 9:
  the list holds both, the dictionary holds 9 under \<^verbatim>\<open>None\<close>.
\<close>

theorem anonymous_schedule_overwrites_none_tag_witness:
  "(if True then 5 else MIN_DT example_constants) < resolved 5 (At 7)
   \<and> (if True then 5 else MIN_DT example_constants) < resolved 5 (After 4)
   \<and> (\<exists>c1. schedule example_constants 5 True 0 (At 7) None new_scheduler
                = Inr (\<lparr>scheduled_events = [(7, [])], tags = [None \<mapsto> 7]\<rparr>, c1))
   \<and> (\<exists>c2. schedule example_constants 5 True 0 (After 4) None
                  \<lparr>scheduled_events = [(7, [])], tags = [None \<mapsto> 7]\<rparr>
                = Inr (\<lparr>scheduled_events = [(7, []), (9, [])], tags = [None \<mapsto> 9]\<rparr>, c2))"
  using anonymous_schedule_overwrites_none_tag [where started = True and now = 5
      and K = example_constants and ?v1.0 = "At 7" and ?v2.0 = "After 4" and ndx = 0
      and s = new_scheduler]
  by (simp add: new_scheduler_def resolved_def)

section \<open>The node\<close>

text \<open>
  Once every required input is valid, \<^verbatim>\<open>any\<close> of them is, unless there is none: the
  second check of \<^verbatim>\<open>eval\<close> can only end the evaluation of a node with no required input.
\<close>

lemma any_valid_after_all_valid:
  "all_valid ins args = Inr True \<Longrightarrow> args \<noteq> [] \<Longrightarrow> any_valid ins args = Inr True"
  by (cases args) (auto split: sum.splits if_splits)

lemma eval_gate_passes:
  assumes "input nd = Some ins" and "ins \<noteq> []"
    and "args = (case valid_inputs (signature nd) of
                   Some v \<Rightarrow> v
                 | None \<Rightarrow> time_series_inputs (signature nd))"
    and "args \<noteq> []" and "all_valid ins args = Inr True"
  shows "eval_gate scheduled nd = Inr True"
  using assms any_valid_after_all_valid [of ins args]
  by (simp add: eval_gate_def Let_def)

text \<open>
  Claim C2 is not what the code does: the second check of \<^verbatim>\<open>eval\<close> reads \<^verbatim>\<open>valid\<close>
  where the claim, and the comment above the check, ask whether an input was modified.
  The node below has a scheduler, is not scheduled now, and its only input has a value
  and was not modified; \<^verbatim>\<open>eval\<close> calls \<^verbatim>\<open>eval_fn\<close> all the same.
\<close>

theorem eval_fires_on_stale_wakeup:
  "eval silent_eval_fn 5 stale_node = Inr (stale_node\<lparr>node_calls := [EvalFn]\<rparr>)"
  by (simp add: eval_def eval_gate_def stale_node_def silent_eval_fn_def new_scheduler_def
      is_scheduled_now_def input_item_def)

section \<open>The graph builder factory\<close>

text \<open>
  Claim C9. Declaring a class when one is declared fails with a \<^verbatim>\<open>RuntimeError\<close> of its
  own message and leaves the declared class as it was; with none declared the
  declaration succeeds. Reading \<^verbatim>\<open>declared()\<close> with nothing declared fails, with another
  message. \<^verbatim>\<open>make\<close> builds an instance of the declared class when there is one and of
  the default class, \<^verbatim>\<open>PythonGraphBuilder\<close>, otherwise, from the node builders and edges
  it is given.
\<close>

theorem graph_builder_factory_declaration:
  "declare_cls c2 (Some c1)
     = (Some (RuntimeError ''A graph builder type has already been declared''), Some c1)
   \<and> declare_cls c1 None = (None, Some c1)
   \<and> declared None = Inl (RuntimeError ''No graph builder type has been declared'')
   \<and> declared (Some c1) = Inr c1
   \<and> RuntimeError ''A graph builder type has already been declared''
       \<noteq> RuntimeError ''No graph builder type has been declared''
   \<and> make nbs es (Some c1) = Inr \<lparr>builder_cls = c1, node_builders = nbs, edges = es\<rparr>
   \<and> make nbs es None = Inr \<lparr>builder_cls = default_cls, node_builders = nbs, edges = es\<rparr>
   \<and> default_cls = PythonGraphBuilder"
  by (simp add: declare_cls_def declared_def make_def is_declared_def default_cls_def)


end
